theory Spec2Isabelle
  imports Main
begin

section \<open>Instants, times of day and durations\<close>

text \<open>
  The scheduler works on timezone-aware \<^verbatim>\<open>datetime\<close> values of one reference zone
  (\<^verbatim>\<open>EST = pytz.timezone('America/New_York')\<close>). A datetime is modelled by its wall-clock
  reading in that zone, counted in microseconds (the resolution of Python's
  \<^verbatim>\<open>datetime\<close>): \<open>ordinal * 86400000000 + microseconds since midnight\<close>, where
  \<open>ordinal\<close> is the proleptic Gregorian day number of \<^verbatim>\<open>date.toordinal()\<close> (day 1 is
  0001-01-01). Comparison and \<^verbatim>\<open>timedelta\<close> arithmetic are those of the integers.
  \<^verbatim>\<open>EST.localize\<close> and \<^verbatim>\<open>astimezone(EST)\<close> leave the reading in the reference zone as
  it is, so they are the identity here. The UTC offset of the zone is not modelled: it
  changes at 02:00 local time, outside the hours the search looks at. The year range
  1..9999 of \<^verbatim>\<open>datetime\<close> is not modelled either.
\<close>

type_synonym datetime = int

record time =
  hour :: nat
  minute :: nat
  second :: nat
  microsecond :: nat

text \<open>
  The fields of a \<^verbatim>\<open>datetime.time\<close> object are never negative, and the constructor
  refuses values beyond their ranges.
\<close>

definition valid_time :: "time \<Rightarrow> bool" where
  "valid_time t \<longleftrightarrow>
     hour t < 24 \<and> minute t < 60 \<and> second t < 60 \<and> microsecond t < 1000000"

text \<open>The constructor \<^verbatim>\<open>time(hour, minute)\<close>.\<close>

definition mk_time :: "nat \<Rightarrow> nat \<Rightarrow> time" where
  "mk_time h mi = \<lparr>hour = h, minute = mi, second = 0, microsecond = 0\<rparr>"

text \<open>\<^verbatim>\<open>timedelta(minutes=n)\<close> and \<^verbatim>\<open>timedelta(weeks=k)\<close>, in microseconds.\<close>

definition timedelta_minutes :: "int \<Rightarrow> int" where
  "timedelta_minutes n = n * 60000000"

definition timedelta_weeks :: "int \<Rightarrow> int" where
  "timedelta_weeks k = k * 604800000000"

text \<open>\<^verbatim>\<open>dt.date()\<close> as an ordinal, and the microseconds since midnight of \<^verbatim>\<open>dt\<close>.\<close>

definition date_of :: "datetime \<Rightarrow> int" where
  "date_of dt = dt div 86400000000"

definition time_of :: "datetime \<Rightarrow> int" where
  "time_of dt = dt mod 86400000000"

text \<open>Microseconds since midnight of a time of day.\<close>

definition time_us :: "time \<Rightarrow> int" where
  "time_us t = int (hour t) * 3600000000 + int (minute t) * 60000000 +
               int (second t) * 1000000 + int (microsecond t)"

text \<open>\<^verbatim>\<open>datetime.combine(date, time)\<close>, the date given as an ordinal.\<close>

definition combine :: "int \<Rightarrow> time \<Rightarrow> datetime" where
  "combine d t = d * 86400000000 + time_us t"

text \<open>\<^verbatim>\<open>datetime.min.time()\<close> is midnight; \<^verbatim>\<open>.replace(hour=h)\<close> sets the hour field.\<close>

definition min_time :: time where
  "min_time = \<lparr>hour = 0, minute = 0, second = 0, microsecond = 0\<rparr>"

definition replace_hour :: "datetime \<Rightarrow> int \<Rightarrow> datetime" where
  "replace_hour dt h = dt - (time_of dt div 3600000000) * 3600000000 + h * 3600000000"

section \<open>The calendar\<close>

text \<open>
  The proleptic Gregorian calendar, as Python's \<^verbatim>\<open>datetime\<close> module computes it
  (\<^verbatim>\<open>_is_leap\<close>, \<^verbatim>\<open>_days_before_year\<close>, \<^verbatim>\<open>_days_in_month\<close>, \<^verbatim>\<open>_days_before_month\<close>,
  \<^verbatim>\<open>_ymd2ord\<close>, \<^verbatim>\<open>_ord2ymd\<close>). Months are 1..12 and \<^verbatim>\<open>weekday()\<close> counts from Monday = 0,
  so Thursday is 3 and Friday is 4.
\<close>

definition is_leap :: "int \<Rightarrow> bool" where
  "is_leap year \<longleftrightarrow> year mod 4 = 0 \<and> (year mod 100 \<noteq> 0 \<or> year mod 400 = 0)"

definition days_before_year :: "int \<Rightarrow> int" where
  "days_before_year year = (let y = year - 1 in y * 365 + y div 4 - y div 100 + y div 400)"

definition DAYS_IN_MONTH :: "int \<Rightarrow> int" where
  "DAYS_IN_MONTH month =
     (if month = 2 then 28
      else if month = 4 \<or> month = 6 \<or> month = 9 \<or> month = 11 then 30 else 31)"

definition DAYS_BEFORE_MONTH :: "int \<Rightarrow> int" where
  "DAYS_BEFORE_MONTH month =
     (if month = 1 then 0 else if month = 2 then 31 else if month = 3 then 59
      else if month = 4 then 90 else if month = 5 then 120 else if month = 6 then 151
      else if month = 7 then 181 else if month = 8 then 212 else if month = 9 then 243
      else if month = 10 then 273 else if month = 11 then 304 else 334)"

definition days_in_month :: "int \<Rightarrow> int \<Rightarrow> int" where
  "days_in_month year month =
     (if month = 2 \<and> is_leap year then 29 else DAYS_IN_MONTH month)"

definition days_before_month :: "int \<Rightarrow> int \<Rightarrow> int" where
  "days_before_month year month =
     DAYS_BEFORE_MONTH month + (if month > 2 \<and> is_leap year then 1 else 0)"

definition ymd2ord :: "int \<Rightarrow> int \<Rightarrow> int \<Rightarrow> int" where
  "ymd2ord year month day = days_before_year year + days_before_month year month + day"

definition ord2ymd :: "int \<Rightarrow> int \<times> int \<times> int" where
  "ord2ymd ordinal =
     (let n = ordinal - 1;
          n400 = n div 146097; n = n mod 146097;
          year = n400 * 400 + 1;
          n100 = n div 36524; n = n mod 36524;
          n4 = n div 1461; n = n mod 1461;
          n1 = n div 365; n = n mod 365;
          year = year + n100 * 100 + n4 * 4 + n1
      in if n1 = 4 \<or> n100 = 4 then (year - 1, 12, 31)
         else
           (let leapyear = (n1 = 3 \<and> (n4 \<noteq> 24 \<or> n100 = 3));
                month = (n + 50) div 32;
                preceding = DAYS_BEFORE_MONTH month + (if month > 2 \<and> leapyear then 1 else 0)
            in if preceding > n
               then (let month = month - 1;
                         preceding = preceding -
                           (DAYS_IN_MONTH month + (if month = 2 \<and> leapyear then 1 else 0))
                     in (year, month, n - preceding + 1))
               else (year, month, n - preceding + 1)))"

definition weekday :: "int \<Rightarrow> int" where
  "weekday ordinal = (ordinal + 6) mod 7"

text \<open>The constructor \<^verbatim>\<open>datetime(year, month, day, hour, minute, second, microsecond)\<close>.\<close>

definition mk_datetime :: "int \<Rightarrow> int \<Rightarrow> int \<Rightarrow> nat \<Rightarrow> nat \<Rightarrow> nat \<Rightarrow> nat \<Rightarrow> datetime" where
  "mk_datetime y m d h mi s us =
     combine (ymd2ord y m d) \<lparr>hour = h, minute = mi, second = s, microsecond = us\<rparr>"

text \<open>
  \<^verbatim>\<open>dt + relativedelta(months=k)\<close> of \<^verbatim>\<open>dateutil\<close>: the month moves by \<open>k\<close> with the year
  carried, the day of the month is cut to the length of the new month, the time of day
  stays.
\<close>

definition add_relativedelta_months :: "datetime \<Rightarrow> int \<Rightarrow> datetime" where
  "add_relativedelta_months dt months =
     (case ord2ymd (date_of dt) of (y, m, d) \<Rightarrow>
        (let total = m - 1 + months;
             year = y + total div 12;
             month = total mod 12 + 1;
             day = min (days_in_month year month) d
         in ymd2ord year month day * 86400000000 + time_of dt))"

section \<open>Recurrence rules\<close>

text \<open>
  The four calls of \<^verbatim>\<open>dateutil.rrule.rrule\<close> that the scheduler makes, modelled on the
  library's documented behaviour (RFC 5545): \<^verbatim>\<open>dtstart\<close> loses its microseconds, every
  occurrence carries the time of day of \<^verbatim>\<open>dtstart\<close>, and the occurrences are those
  between \<^verbatim>\<open>dtstart\<close> and \<^verbatim>\<open>until\<close>, both included, in ascending order.
  \<^item> \<^verbatim>\<open>rrule(WEEKLY, interval=i, dtstart, until)\<close>: \<^verbatim>\<open>dtstart\<close> and every \<open>i\<close> weeks after.
  \<^item> \<^verbatim>\<open>rrule(MONTHLY, dtstart, until, byweekday=[wd(n)])\<close> for \<open>n = 1\<close> and \<open>n = -1\<close>: the
    first (last) day of each month that falls on weekday \<open>wd\<close>; only the months from that
    of \<^verbatim>\<open>dtstart\<close> to that of \<^verbatim>\<open>until\<close> can have an occurrence in the range.
\<close>

definition replace_microsecond_0 :: "datetime \<Rightarrow> datetime" where
  "replace_microsecond_0 dt = dt - dt mod 1000000"

definition rrule_weekly :: "int \<Rightarrow> datetime \<Rightarrow> datetime \<Rightarrow> datetime list" where
  "rrule_weekly interval dtstart until =
     (let dtstart0 = replace_microsecond_0 dtstart;
          step = timedelta_weeks interval
      in map (\<lambda>k. dtstart0 + k * step) [0 .. (until - dtstart0) div step])"

definition nth_weekday_of_month :: "int \<Rightarrow> int \<Rightarrow> int \<Rightarrow> int \<Rightarrow> int" where
  "nth_weekday_of_month year month wd n =
     (if n = -1
      then (let last_day = ymd2ord year month (days_in_month year month)
            in last_day - (weekday last_day - wd) mod 7)
      else (let first_day = ymd2ord year month 1
            in first_day + (wd - weekday first_day) mod 7))"

definition month_index :: "datetime \<Rightarrow> int" where
  "month_index dt = (case ord2ymd (date_of dt) of (y, m, d) \<Rightarrow> y * 12 + m - 1)"

definition rrule_monthly :: "datetime \<Rightarrow> datetime \<Rightarrow> int \<Rightarrow> int \<Rightarrow> datetime list" where
  "rrule_monthly dtstart until wd n =
     (let dtstart0 = replace_microsecond_0 dtstart
      in filter (\<lambda>occurrence. dtstart0 \<le> occurrence \<and> occurrence \<le> until)
           (map (\<lambda>i. nth_weekday_of_month (i div 12) (i mod 12 + 1) wd n * 86400000000
                       + time_of dtstart0)
              [month_index dtstart0 .. month_index until]))"

definition generate_candidate_dates :: "datetime \<Rightarrow> datetime \<Rightarrow> string \<Rightarrow> datetime list" where
  "generate_candidate_dates start_date end_date recurrence =
     (if recurrence = ''First Thursday of each month'' then rrule_monthly start_date end_date 3 1
      else if recurrence = ''Last Friday of each month'' then rrule_monthly start_date end_date 4 (-1)
      else if recurrence = ''Every two weeks'' then rrule_weekly 2 start_date end_date
      else rrule_weekly 1 start_date end_date)"

section \<open>Events and slots\<close>

text \<open>
  Busy events are dictionaries with the keys \<^verbatim>\<open>summary\<close>, \<^verbatim>\<open>start\<close>, \<^verbatim>\<open>end\<close>; proposed
  slots are dictionaries with the keys \<^verbatim>\<open>start\<close>, \<^verbatim>\<open>end\<close>.
\<close>

record event =
  summary :: string
  ev_start :: datetime
  ev_end :: datetime

record slot =
  sl_start :: datetime
  sl_end :: datetime

definition astimezone_EST :: "datetime \<Rightarrow> datetime" where
  "astimezone_EST dt = dt"

definition normalize_events_timezone :: "event list \<Rightarrow> event list" where
  "normalize_events_timezone events =
     map (\<lambda>event. \<lparr>summary = summary event,
                    ev_start = astimezone_EST (ev_start event),
                    ev_end = astimezone_EST (ev_end event)\<rparr>) events"

section \<open>Conflict detection\<close>

text \<open>
  \<^verbatim>\<open>has_conflict\<close>: the loop over \<^verbatim>\<open>existing_events\<close> is the recursion over the list; the
  first branch is the \<^verbatim>\<open>continue\<close> of the coarse pre-check, the second the \<^verbatim>\<open>return True\<close>.
\<close>

fun has_conflict :: "slot \<Rightarrow> event list \<Rightarrow> bool" where
  "has_conflict slot [] = False"
| "has_conflict slot (event # existing_events) =
     (let buffer_time = timedelta_minutes 15;
          slot_start = sl_start slot - buffer_time;
          slot_end = sl_end slot + buffer_time
      in if ev_end event < slot_start \<or> ev_start event > slot_end
         then has_conflict slot existing_events
         else if slot_start < ev_end event \<and> slot_end > ev_start event
         then True
         else has_conflict slot existing_events)"

text \<open>
  The detector as the specification words it, without the pre-check: the open-interval
  overlap test is applied to every event.
\<close>

fun plain_has_conflict :: "slot \<Rightarrow> event list \<Rightarrow> bool" where
  "plain_has_conflict slot [] = False"
| "plain_has_conflict slot (event # existing_events) =
     (let expandedStart = sl_start slot - timedelta_minutes 15;
          expandedEnd = sl_end slot + timedelta_minutes 15
      in if expandedStart < ev_end event \<and> expandedEnd > ev_start event
         then True
         else plain_has_conflict slot existing_events)"

section \<open>Day availability search\<close>

text \<open>
  The \<^verbatim>\<open>while current_time < day_end\<close> loop of \<^verbatim>\<open>find_available_slot_on_day\<close> comes
  first; its \<^verbatim>\<open>break\<close> leaves the loop for the final \<^verbatim>\<open>return None\<close>. The function
  itself follows: the candidate dates it is called with are datetimes, so the date it
  combines with 09:00 and with the preferred time is \<^verbatim>\<open>date.date()\<close>.
\<close>

function scan_business_hours :: "datetime \<Rightarrow> datetime \<Rightarrow> int \<Rightarrow> event list \<Rightarrow> slot option" where
  "scan_business_hours current_time day_end duration existing_events =
     (if current_time < day_end then
        (let slot = \<lparr>sl_start = current_time,
                     sl_end = current_time + timedelta_minutes duration\<rparr>
         in if sl_end slot > day_end then None
            else if \<not> has_conflict slot existing_events then Some slot
            else scan_business_hours (current_time + timedelta_minutes 30) day_end
                   duration existing_events)
      else None)"
  by pat_completeness auto
termination
  by (relation "measure (\<lambda>(current_time, day_end, duration, existing_events).
                  nat (day_end - current_time))")
     (auto simp: timedelta_minutes_def)

definition find_available_slot_on_day :: "datetime \<Rightarrow> time \<Rightarrow> int \<Rightarrow> event list \<Rightarrow> slot option" where
  "find_available_slot_on_day date preferred_time duration existing_events =
     (let day_start = combine (date_of date) (min_time\<lparr>hour := 9\<rparr>);
          day_end = replace_hour day_start 17;
          preferred_datetime = combine (date_of date) preferred_time;
          current_time = (if 9 \<le> hour preferred_time \<and> hour preferred_time < 17
                          then preferred_datetime else day_start)
      in scan_business_hours current_time day_end duration existing_events)"

section \<open>Fallback search\<close>

text \<open>
  \<^verbatim>\<open>find_slot_on_nearby_dates\<close>: the loop over the week offsets, then the function with
  the literal list of the source.
\<close>

fun nearby_dates_loop :: "int list \<Rightarrow> datetime \<Rightarrow> time \<Rightarrow> int \<Rightarrow> event list \<Rightarrow> datetime \<Rightarrow> datetime \<Rightarrow> slot option" where
  "nearby_dates_loop [] base_date preferred_time duration existing_events end_date start_date = None"
| "nearby_dates_loop (week_offset # offsets) base_date preferred_time duration existing_events
       end_date start_date =
     (let test_date = base_date + timedelta_weeks week_offset
      in if test_date > end_date \<or> test_date < start_date
         then nearby_dates_loop offsets base_date preferred_time duration existing_events
                end_date start_date
         else (case find_available_slot_on_day test_date preferred_time duration existing_events of
                 Some slot \<Rightarrow> Some slot
               | None \<Rightarrow> nearby_dates_loop offsets base_date preferred_time duration
                           existing_events end_date start_date))"

definition find_slot_on_nearby_dates :: "datetime \<Rightarrow> time \<Rightarrow> int \<Rightarrow> event list \<Rightarrow> datetime \<Rightarrow> datetime \<Rightarrow> slot option" where
  "find_slot_on_nearby_dates base_date preferred_time duration existing_events end_date start_date =
     nearby_dates_loop [1, -1, 2, -2, 3, -3, 4, -4] base_date preferred_time duration
       existing_events end_date start_date"

section \<open>The orchestrator\<close>

text \<open>
  \<^verbatim>\<open>find_optimal_slots\<close>. The loop over the candidate dates appends to \<^verbatim>\<open>optimal_slots\<close>;
  the clock reading \<^verbatim>\<open>datetime.now(EST)\<close> is the parameter \<open>now\<close>.
\<close>

fun optimal_slots_loop :: "datetime list \<Rightarrow> slot list \<Rightarrow> time \<Rightarrow> int \<Rightarrow> event list \<Rightarrow> datetime \<Rightarrow> datetime \<Rightarrow> slot list" where
  "optimal_slots_loop [] optimal_slots preferred_time duration existing_events end_date now =
     optimal_slots"
| "optimal_slots_loop (base_date # candidate_dates) optimal_slots preferred_time duration
       existing_events end_date now =
     (case find_available_slot_on_day base_date preferred_time duration existing_events of
        Some slot \<Rightarrow>
          optimal_slots_loop candidate_dates (optimal_slots @ [slot]) preferred_time duration
            existing_events end_date now
      | None \<Rightarrow>
          (case find_slot_on_nearby_dates base_date preferred_time duration existing_events
                  end_date now of
             Some nearby_slot \<Rightarrow>
               optimal_slots_loop candidate_dates (optimal_slots @ [nearby_slot]) preferred_time
                 duration existing_events end_date now
           | None \<Rightarrow>
               optimal_slots_loop candidate_dates optimal_slots preferred_time duration
                 existing_events end_date now))"

definition find_optimal_slots :: "datetime \<Rightarrow> event list \<Rightarrow> time \<Rightarrow> int \<Rightarrow> string \<Rightarrow> int \<Rightarrow> slot list" where
  "find_optimal_slots now existing_events preferred_time duration recurrence months_ahead =
     (let existing_events = normalize_events_timezone existing_events;
          end_date = add_relativedelta_months now months_ahead;
          candidate_dates = generate_candidate_dates now end_date recurrence
      in optimal_slots_loop candidate_dates [] preferred_time duration existing_events
           end_date now)"

section \<open>Properties\<close>

lemma has_conflict_iff:
  "has_conflict slot events \<longleftrightarrow>
     (\<exists>event \<in> set events.
        sl_start slot - timedelta_minutes 15 < ev_end event \<and>
        sl_end slot + timedelta_minutes 15 > ev_start event)"
  by (induction events) (auto simp: Let_def)

lemma plain_has_conflict_iff:
  "plain_has_conflict slot events \<longleftrightarrow>
     (\<exists>event \<in> set events.
        sl_start slot - timedelta_minutes 15 < ev_end event \<and>
        sl_end slot + timedelta_minutes 15 > ev_start event)"
  by (induction events) (auto simp: Let_def)

declare scan_business_hours.simps [simp del]

lemma scan_business_hours_Some:
  assumes "scan_business_hours current_time day_end duration events = Some slot"
  shows "current_time \<le> sl_start slot \<and> sl_start slot < day_end \<and>
         sl_end slot = sl_start slot + timedelta_minutes duration \<and>
         sl_end slot \<le> day_end \<and> \<not> has_conflict slot events"
  using assms
proof (induction current_time day_end duration events rule: scan_business_hours.induct)
  case (1 current_time day_end duration existing_events)
  show ?case
  proof (cases "has_conflict \<lparr>sl_start = current_time,
                   sl_end = current_time + timedelta_minutes duration\<rparr> existing_events")
    case True
    with "1.prems" have lt: "current_time < day_end"
      and le: "\<not> current_time + timedelta_minutes duration > day_end"
      and rec: "scan_business_hours (current_time + timedelta_minutes 30) day_end duration
                  existing_events = Some slot"
      by (auto simp: scan_business_hours.simps [of current_time] Let_def split: if_splits)
    from "1.IH" [OF lt refl _ _ rec] le True
    have "current_time + timedelta_minutes 30 \<le> sl_start slot \<and> sl_start slot < day_end \<and>
         sl_end slot = sl_start slot + timedelta_minutes duration \<and>
         sl_end slot \<le> day_end \<and> \<not> has_conflict slot existing_events"
      by simp
    then show ?thesis by (simp add: timedelta_minutes_def)
  next
    case False
    with "1.prems" show ?thesis
      by (auto simp: scan_business_hours.simps [of current_time] Let_def split: if_splits)
  qed
qed

lemma day_start_eq:
  "combine d (min_time\<lparr>hour := 9\<rparr>) = d * 86400000000 + 32400000000"
  by (simp add: combine_def min_time_def time_us_def)

lemma day_end_eq:
  "replace_hour (d * 86400000000 + 32400000000) 17 = d * 86400000000 + 61200000000"
  by (simp add: replace_hour_def time_of_def)

lemma find_available_slot_on_day_scan:
  "find_available_slot_on_day date preferred_time duration events =
     scan_business_hours
       (if 9 \<le> hour preferred_time \<and> hour preferred_time < 17
        then combine (date_of date) preferred_time
        else date_of date * 86400000000 + 32400000000)
       (date_of date * 86400000000 + 61200000000) duration events"
  unfolding find_available_slot_on_day_def Let_def day_start_eq day_end_eq ..

lemma combine_ge_hour:
  assumes "h \<le> hour t"
  shows "d * 86400000000 + int h * 3600000000 \<le> combine d t"
  using assms by (simp add: combine_def time_us_def)

lemma find_available_slot_on_day_Some:
  assumes "find_available_slot_on_day date preferred_time duration events = Some slot"
  shows "date_of date * 86400000000 + 32400000000 \<le> sl_start slot \<and>
         sl_start slot < date_of date * 86400000000 + 61200000000 \<and>
         sl_end slot = sl_start slot + timedelta_minutes duration \<and>
         sl_end slot \<le> date_of date * 86400000000 + 61200000000 \<and>
         \<not> has_conflict slot events"
proof -
  let ?d = "date_of date"
  let ?c = "if 9 \<le> hour preferred_time \<and> hour preferred_time < 17
            then combine ?d preferred_time else ?d * 86400000000 + 32400000000"
  from assms(1)
  have "scan_business_hours ?c (?d * 86400000000 + 61200000000) duration events = Some slot"
    by (simp only: find_available_slot_on_day_scan)
  from scan_business_hours_Some [OF this]
  have *: "?c \<le> sl_start slot" and rest: "sl_start slot < ?d * 86400000000 + 61200000000 \<and>
         sl_end slot = sl_start slot + timedelta_minutes duration \<and>
         sl_end slot \<le> ?d * 86400000000 + 61200000000 \<and> \<not> has_conflict slot events"
    by blast+
  have "?d * 86400000000 + 32400000000 \<le> ?c"
  proof (cases "9 \<le> hour preferred_time \<and> hour preferred_time < 17")
    case True
    with combine_ge_hour [of 9 preferred_time ?d] show ?thesis
      by simp
  next
    case False
    then show ?thesis by auto
  qed
  with * rest show ?thesis by simp
qed

lemma nearby_dates_loop_Some:
  assumes "nearby_dates_loop offsets base_date preferred_time duration events end_date start_date
             = Some slot"
  shows "\<exists>week_offset \<in> set offsets.
           \<not> (base_date + timedelta_weeks week_offset > end_date \<or>
              base_date + timedelta_weeks week_offset < start_date) \<and>
           find_available_slot_on_day (base_date + timedelta_weeks week_offset) preferred_time
             duration events = Some slot"
  using assms
  by (induction offsets) (auto simp: Let_def split: if_splits option.splits)

lemma find_slot_on_nearby_dates_Some:
  assumes "find_slot_on_nearby_dates base_date preferred_time duration events end_date start_date
             = Some slot"
  shows "\<exists>week_offset \<in> {1, -1, 2, -2, 3, -3, 4, -4}.
           \<not> (base_date + timedelta_weeks week_offset > end_date \<or>
              base_date + timedelta_weeks week_offset < start_date) \<and>
           find_available_slot_on_day (base_date + timedelta_weeks week_offset) preferred_time
             duration events = Some slot"
  using nearby_dates_loop_Some [OF assms [unfolded find_slot_on_nearby_dates_def]] by simp

lemma optimal_slots_loop_set:
  assumes "slot \<in> set (optimal_slots_loop candidate_dates optimal_slots preferred_time duration
             events end_date now)"
  shows "slot \<in> set optimal_slots \<or>
         (\<exists>date. find_available_slot_on_day date preferred_time duration events = Some slot)"
  using assms
proof (induction candidate_dates arbitrary: optimal_slots)
  case Nil
  then show ?case by simp
next
  case (Cons base_date candidate_dates)
  show ?case
  proof (cases "find_available_slot_on_day base_date preferred_time duration events")
    case (Some s)
    with Cons.prems Cons.IH [of "optimal_slots @ [s]"] show ?thesis by auto
  next
    case None
    note day = this
    show ?thesis
    proof (cases "find_slot_on_nearby_dates base_date preferred_time duration events end_date now")
      case None
      with day Cons.prems Cons.IH [of optimal_slots] show ?thesis by simp
    next
      case (Some s)
      from find_slot_on_nearby_dates_Some [OF Some]
      have "\<exists>date. find_available_slot_on_day date preferred_time duration events = Some s"
        by blast
      with day Some Cons.prems Cons.IH [of "optimal_slots @ [s]"] show ?thesis by auto
    qed
  qed
qed

text \<open>
  C1. No slot returned by the orchestrator overlaps a busy event of the normalized input
  once the slot is widened by 15 minutes on each side; the slots come from the Day
  Availability Search, on the candidate date or, through the Fallback Search, on a nearby
  date.
\<close>

theorem no_conflict_with_busy_events:
  assumes "slot \<in> set (find_optimal_slots now existing_events preferred_time duration
                         recurrence months_ahead)"
    and "event \<in> set (normalize_events_timezone existing_events)"
  shows "\<not> (sl_start slot - timedelta_minutes 15 < ev_end event \<and>
            sl_end slot + timedelta_minutes 15 > ev_start event)"
proof -
  from assms(1) optimal_slots_loop_set [where optimal_slots = "[]"]
  obtain date where
    "find_available_slot_on_day date preferred_time duration
       (normalize_events_timezone existing_events) = Some slot"
    unfolding find_optimal_slots_def Let_def by fastforce
  from scan_business_hours_Some [OF this [unfolded find_available_slot_on_day_scan]]
  have "\<not> has_conflict slot (normalize_events_timezone existing_events)" by blast
  with assms(2) show ?thesis
    unfolding has_conflict_iff by blast
qed

theorem no_conflict_with_busy_events_witness:
  "\<lparr>sl_start = mk_datetime 2026 11 11 9 0 0 0, sl_end = mk_datetime 2026 11 11 10 0 0 0\<rparr>
     \<in> set (find_optimal_slots (mk_datetime 2026 11 4 10 0 0 0)
              [\<lparr>summary = ''Offsite'', ev_start = mk_datetime 2026 11 4 9 0 0 0,
                ev_end = mk_datetime 2026 11 4 17 0 0 0\<rparr>]
              (mk_time 9 0) 60 ''Weekly'' 1) \<and>
   \<not> (mk_datetime 2026 11 11 9 0 0 0 - timedelta_minutes 15 < mk_datetime 2026 11 4 17 0 0 0 \<and>
      mk_datetime 2026 11 11 10 0 0 0 + timedelta_minutes 15 > mk_datetime 2026 11 4 9 0 0 0)"
proof -
  let ?slot = "\<lparr>sl_start = mk_datetime 2026 11 11 9 0 0 0,
                 sl_end = mk_datetime 2026 11 11 10 0 0 0\<rparr>"
  let ?busy = "\<lparr>summary = ''Offsite'', ev_start = mk_datetime 2026 11 4 9 0 0 0,
                 ev_end = mk_datetime 2026 11 4 17 0 0 0\<rparr>"
  have accepted: "?slot \<in> set (find_optimal_slots (mk_datetime 2026 11 4 10 0 0 0) [?busy]
                                 (mk_time 9 0) 60 ''Weekly'' 1)"
    by code_simp
  have busy: "?busy \<in> set (normalize_events_timezone [?busy])"
    by (simp add: normalize_events_timezone_def astimezone_EST_def)
  from no_conflict_with_busy_events [OF accepted busy] accepted show ?thesis by simp
qed

lemma in_day:
  assumes "d * 86400000000 \<le> x" "x < d * 86400000000 + 86400000000"
  shows "date_of x = d" "time_of x = x - d * 86400000000"
proof -
  have eq: "x = 86400000000 * d + (x - d * 86400000000)" by simp
  from assms have r: "0 \<le> x - d * 86400000000" "x - d * 86400000000 < 86400000000" by simp_all
  show "date_of x = d"
    unfolding date_of_def by (rule int_div_pos_eq [OF eq r])
  show "time_of x = x - d * 86400000000"
    unfolding time_of_def by (rule int_mod_pos_eq [OF eq r])
qed

lemma time_us_mk_time: "time_us (mk_time h mi) = int h * 3600000000 + int mi * 60000000"
  by (simp add: time_us_def mk_time_def)

lemma day_slot_business_hours:
  assumes "find_available_slot_on_day date preferred_time duration events = Some slot"
    and "0 < duration"
  shows "sl_end slot - sl_start slot = timedelta_minutes duration \<and>
         time_us (mk_time 9 0) \<le> time_of (sl_start slot) \<and>
         time_of (sl_end slot) \<le> time_us (mk_time 17 0) \<and>
         date_of (sl_start slot) = date_of (sl_end slot)"
proof -
  let ?d = "date_of date"
  from find_available_slot_on_day_Some [OF assms(1)]
  have lo: "?d * 86400000000 + 32400000000 \<le> sl_start slot"
    and len: "sl_end slot = sl_start slot + timedelta_minutes duration"
    and hi: "sl_end slot \<le> ?d * 86400000000 + 61200000000"
    by blast+
  from assms(2) have pos: "0 < timedelta_minutes duration"
    by (simp add: timedelta_minutes_def)
  from lo len hi pos
  have s: "?d * 86400000000 \<le> sl_start slot" "sl_start slot < ?d * 86400000000 + 86400000000"
    and e: "?d * 86400000000 \<le> sl_end slot" "sl_end slot < ?d * 86400000000 + 86400000000"
    by simp_all
  from in_day [OF s] in_day [OF e] lo len hi show ?thesis
    by (simp add: time_us_mk_time)
qed

text \<open>
  C4. Every slot accepted by the Day Availability Search or by the Fallback Search, for a
  positive duration, lasts exactly \<open>duration\<close> minutes, starts at or after 09:00 and ends
  at or before 17:00 of the same day.
\<close>

theorem accepted_slot_duration_and_business_hours:
  assumes "0 < duration"
    and "find_available_slot_on_day date preferred_time duration events = Some slot \<or>
         find_slot_on_nearby_dates base_date preferred_time duration events end_date start_date
           = Some slot"
  shows "sl_end slot - sl_start slot = timedelta_minutes duration \<and>
         time_us (mk_time 9 0) \<le> time_of (sl_start slot) \<and>
         time_of (sl_end slot) \<le> time_us (mk_time 17 0) \<and>
         date_of (sl_start slot) = date_of (sl_end slot)"
proof -
  from assms(2) find_slot_on_nearby_dates_Some
  obtain d where "find_available_slot_on_day d preferred_time duration events = Some slot"
    by blast
  from day_slot_business_hours [OF this assms(1)] show ?thesis .
qed

theorem accepted_slot_duration_and_business_hours_witness:
  "find_slot_on_nearby_dates (mk_datetime 2026 11 4 10 0 0 0) (mk_time 9 0) 60
     [\<lparr>summary = ''Offsite'', ev_start = mk_datetime 2026 11 4 9 0 0 0,
       ev_end = mk_datetime 2026 11 4 17 0 0 0\<rparr>]
     (mk_datetime 2026 12 4 10 0 0 0) (mk_datetime 2026 11 4 10 0 0 0)
   = Some \<lparr>sl_start = mk_datetime 2026 11 11 9 0 0 0, sl_end = mk_datetime 2026 11 11 10 0 0 0\<rparr> \<and>
   mk_datetime 2026 11 11 10 0 0 0 - mk_datetime 2026 11 11 9 0 0 0 = timedelta_minutes 60 \<and>
   time_us (mk_time 9 0) \<le> time_of (mk_datetime 2026 11 11 9 0 0 0) \<and>
   time_of (mk_datetime 2026 11 11 10 0 0 0) \<le> time_us (mk_time 17 0)"
proof -
  let ?slot = "\<lparr>sl_start = mk_datetime 2026 11 11 9 0 0 0, sl_end = mk_datetime 2026 11 11 10 0 0 0\<rparr>"
  have pos: "(0::int) < 60" by simp
  have found: "find_slot_on_nearby_dates (mk_datetime 2026 11 4 10 0 0 0) (mk_time 9 0) 60
     [\<lparr>summary = ''Offsite'', ev_start = mk_datetime 2026 11 4 9 0 0 0,
       ev_end = mk_datetime 2026 11 4 17 0 0 0\<rparr>]
     (mk_datetime 2026 12 4 10 0 0 0) (mk_datetime 2026 11 4 10 0 0 0) = Some ?slot"
    by code_simp
  from accepted_slot_duration_and_business_hours [OF pos disjI2, OF found] found
  show ?thesis by simp
qed

text \<open>
  C5. A conflict is reported exactly when some busy event overlaps the slot widened by 15
  minutes on each side, under strict comparison. An event that ends exactly 15 minutes
  before the slot starts is no conflict; one that ends 14 minutes before it (and starts
  before the widened end) is.
\<close>

theorem has_conflict_buffer_boundary:
  "(has_conflict slot events \<longleftrightarrow>
      (\<exists>event \<in> set events.
         sl_start slot - timedelta_minutes 15 < ev_end event \<and>
         sl_end slot + timedelta_minutes 15 > ev_start event)) \<and>
   (ev_end busy = sl_start slot - timedelta_minutes 15 \<longrightarrow> \<not> has_conflict slot [busy]) \<and>
   (ev_end busy = sl_start slot - timedelta_minutes 14 \<and>
    ev_start busy < sl_end slot + timedelta_minutes 15 \<longrightarrow> has_conflict slot [busy])"
  by (simp add: has_conflict_iff timedelta_minutes_def)

theorem has_conflict_buffer_boundary_witness:
  "\<not> has_conflict
       \<lparr>sl_start = mk_datetime 2026 11 4 10 0 0 0, sl_end = mk_datetime 2026 11 4 11 0 0 0\<rparr>
       [\<lparr>summary = ''Standup'', ev_start = mk_datetime 2026 11 4 9 0 0 0,
         ev_end = mk_datetime 2026 11 4 9 45 0 0\<rparr>] \<and>
   has_conflict
       \<lparr>sl_start = mk_datetime 2026 11 4 10 0 0 0, sl_end = mk_datetime 2026 11 4 11 0 0 0\<rparr>
       [\<lparr>summary = ''Standup'', ev_start = mk_datetime 2026 11 4 9 0 0 0,
         ev_end = mk_datetime 2026 11 4 9 46 0 0\<rparr>]"
proof -
  let ?slot = "\<lparr>sl_start = mk_datetime 2026 11 4 10 0 0 0, sl_end = mk_datetime 2026 11 4 11 0 0 0\<rparr>"
  let ?e15 = "\<lparr>summary = ''Standup'', ev_start = mk_datetime 2026 11 4 9 0 0 0,
                ev_end = mk_datetime 2026 11 4 9 45 0 0\<rparr>"
  let ?e14 = "\<lparr>summary = ''Standup'', ev_start = mk_datetime 2026 11 4 9 0 0 0,
                ev_end = mk_datetime 2026 11 4 9 46 0 0\<rparr>"
  have a: "ev_end ?e15 = sl_start ?slot - timedelta_minutes 15" by code_simp
  have b: "ev_end ?e14 = sl_start ?slot - timedelta_minutes 14 \<and>
           ev_start ?e14 < sl_end ?slot + timedelta_minutes 15" by code_simp
  from has_conflict_buffer_boundary [of ?slot "[]" ?e15] a
  have 1: "\<not> has_conflict ?slot [?e15]" by blast
  from has_conflict_buffer_boundary [of ?slot "[]" ?e14] b
  have 2: "has_conflict ?slot [?e14]" by blast
  from 1 2 show ?thesis by blast
qed

text \<open>
  C10. The coarse pre-check changes nothing: the detector returns what the plain detector,
  which tests every event for overlap, returns.
\<close>

theorem has_conflict_precheck_is_optimization:
  "has_conflict slot events = plain_has_conflict slot events"
  by (simp add: has_conflict_iff plain_has_conflict_iff)

lemma weeks_as_days: "week_offset * 7 * 86400000000 = timedelta_weeks week_offset"
  by (simp add: timedelta_weeks_def)

lemma nearby_dates_loop_find:
  "nearby_dates_loop offsets base_date preferred_time duration events end_date start_date =
     (case List.find
             (\<lambda>week_offset.
                (start_date \<le> base_date + timedelta_weeks week_offset \<and>
                 base_date + timedelta_weeks week_offset \<le> end_date) \<and>
                find_available_slot_on_day (base_date + timedelta_weeks week_offset)
                  preferred_time duration events \<noteq> None)
             offsets of
        Some week_offset \<Rightarrow>
          find_available_slot_on_day (base_date + timedelta_weeks week_offset)
            preferred_time duration events
      | None \<Rightarrow> None)"
  by (induction offsets) (auto simp: Let_def split: option.splits)

text \<open>
  C6. The Fallback Search goes through the week offsets +1, -1, +2, -2, +3, -3, +4, -4 in
  this order, passes over a test date outside the window from \<open>start_date\<close> to
  \<open>end_date\<close>, searches the day otherwise, and returns the first slot found; when it finds
  none after a failed search on the candidate date itself, the orchestrator adds nothing
  for that candidate.
\<close>

theorem fallback_search_offsets_in_order:
  "find_slot_on_nearby_dates base_date preferred_time duration events end_date start_date =
     (case List.find
             (\<lambda>week_offset.
                (start_date \<le> base_date + week_offset * 7 * 86400000000 \<and>
                 base_date + week_offset * 7 * 86400000000 \<le> end_date) \<and>
                find_available_slot_on_day (base_date + week_offset * 7 * 86400000000)
                  preferred_time duration events \<noteq> None)
             [1, -1, 2, -2, 3, -3, 4, -4] of
        Some week_offset \<Rightarrow>
          find_available_slot_on_day (base_date + week_offset * 7 * 86400000000)
            preferred_time duration events
      | None \<Rightarrow> None) \<and>
   (find_available_slot_on_day base_date preferred_time duration events = None \<and>
    find_slot_on_nearby_dates base_date preferred_time duration events end_date start_date = None
    \<longrightarrow> optimal_slots_loop (base_date # candidate_dates) optimal_slots preferred_time duration
          events end_date start_date =
        optimal_slots_loop candidate_dates optimal_slots preferred_time duration
          events end_date start_date)"
proof (intro conjI impI)
  show "find_slot_on_nearby_dates base_date preferred_time duration events end_date start_date =
     (case List.find
             (\<lambda>week_offset.
                (start_date \<le> base_date + week_offset * 7 * 86400000000 \<and>
                 base_date + week_offset * 7 * 86400000000 \<le> end_date) \<and>
                find_available_slot_on_day (base_date + week_offset * 7 * 86400000000)
                  preferred_time duration events \<noteq> None)
             [1, -1, 2, -2, 3, -3, 4, -4] of
        Some week_offset \<Rightarrow>
          find_available_slot_on_day (base_date + week_offset * 7 * 86400000000)
            preferred_time duration events
      | None \<Rightarrow> None)"
    unfolding weeks_as_days find_slot_on_nearby_dates_def nearby_dates_loop_find ..
next
  assume "find_available_slot_on_day base_date preferred_time duration events = None \<and>
    find_slot_on_nearby_dates base_date preferred_time duration events end_date start_date = None"
  then show "optimal_slots_loop (base_date # candidate_dates) optimal_slots preferred_time
               duration events end_date start_date =
             optimal_slots_loop candidate_dates optimal_slots preferred_time duration
               events end_date start_date"
    by simp
qed

theorem fallback_search_offsets_in_order_witness:
  "find_slot_on_nearby_dates (mk_datetime 2026 11 18 10 0 0 0) (mk_time 16 0) 60
     [\<lparr>summary = ''Audit'', ev_start = mk_datetime 2026 11 18 9 0 0 0,
       ev_end = mk_datetime 2026 11 25 17 0 0 0\<rparr>]
     (mk_datetime 2026 12 4 10 0 0 0) (mk_datetime 2026 11 4 10 0 0 0)
   = Some \<lparr>sl_start = mk_datetime 2026 11 11 16 0 0 0, sl_end = mk_datetime 2026 11 11 17 0 0 0\<rparr> \<and>
   optimal_slots_loop [mk_datetime 2026 11 18 10 0 0 0] [] (mk_time 16 0) 600 []
     (mk_datetime 2026 12 4 10 0 0 0) (mk_datetime 2026 11 4 10 0 0 0) = []"
proof -
  let ?base = "mk_datetime 2026 11 18 10 0 0 0"
  let ?end = "mk_datetime 2026 12 4 10 0 0 0"
  let ?start = "mk_datetime 2026 11 4 10 0 0 0"
  let ?busy = "[\<lparr>summary = ''Audit'', ev_start = mk_datetime 2026 11 18 9 0 0 0,
                  ev_end = mk_datetime 2026 11 25 17 0 0 0\<rparr>]"
  have day: "find_available_slot_on_day ?base (mk_time 16 0) 600 [] = None"
    by code_simp
  have nearby: "find_slot_on_nearby_dates ?base (mk_time 16 0) 600 [] ?end ?start = None"
    by code_simp
  from fallback_search_offsets_in_order
         [of ?base "mk_time 16 0" 600 "[]" ?end ?start "[]" "[]"] day nearby
  have dropped: "optimal_slots_loop [?base] [] (mk_time 16 0) 600 [] ?end ?start = []"
    by simp
  have "(case List.find
             (\<lambda>week_offset.
                (?start \<le> ?base + week_offset * 7 * 86400000000 \<and>
                 ?base + week_offset * 7 * 86400000000 \<le> ?end) \<and>
                find_available_slot_on_day (?base + week_offset * 7 * 86400000000)
                  (mk_time 16 0) 60 ?busy \<noteq> None)
             [1, -1, 2, -2, 3, -3, 4, -4] of
        Some week_offset \<Rightarrow>
          find_available_slot_on_day (?base + week_offset * 7 * 86400000000)
            (mk_time 16 0) 60 ?busy
      | None \<Rightarrow> None)
    = Some \<lparr>sl_start = mk_datetime 2026 11 11 16 0 0 0, sl_end = mk_datetime 2026 11 11 17 0 0 0\<rparr>"
    by code_simp
  with fallback_search_offsets_in_order
         [of ?base "mk_time 16 0" 60 ?busy ?end ?start "[]" "[]"] dropped
  show ?thesis by simp
qed

lemma hour_test_is_time_range:
  assumes "valid_time t"
  shows "(9 \<le> hour t \<and> hour t < 17) \<longleftrightarrow>
         (time_us (mk_time 9 0) \<le> time_us t \<and> time_us t < time_us (mk_time 17 0))"
  using assms by (auto simp: valid_time_def time_us_def mk_time_def)

lemma combine_mk_time_9: "combine d (mk_time 9 0) = d * 86400000000 + 32400000000"
  by (simp add: combine_def time_us_mk_time)

lemma combine_mk_time_17: "combine d (mk_time 17 0) = d * 86400000000 + 61200000000"
  by (simp add: combine_def time_us_mk_time)

text \<open>
  C9. The scan of the Day Availability Search starts at the preferred time on the
  candidate date when that time lies in 09:00 (included) to 17:00 (excluded), and at
  09:00 on the candidate date otherwise; for a preferred time of 08:00 it starts at 09:00.
\<close>

theorem day_search_scan_start:
  assumes "valid_time preferred_time"
  shows "find_available_slot_on_day date preferred_time duration events =
           scan_business_hours
             (if time_us (mk_time 9 0) \<le> time_us preferred_time \<and>
                 time_us preferred_time < time_us (mk_time 17 0)
              then combine (date_of date) preferred_time
              else combine (date_of date) (mk_time 9 0))
             (combine (date_of date) (mk_time 17 0)) duration events \<and>
         find_available_slot_on_day date (mk_time 8 0) duration events =
           scan_business_hours (combine (date_of date) (mk_time 9 0))
             (combine (date_of date) (mk_time 17 0)) duration events"
proof -
  have "hour (mk_time 8 0) = 8" by (simp add: mk_time_def)
  then show ?thesis
    unfolding find_available_slot_on_day_scan hour_test_is_time_range [OF assms]
      combine_mk_time_9 combine_mk_time_17
    by simp
qed

theorem day_search_scan_start_witness:
  "valid_time (mk_time 8 0) \<and>
   find_available_slot_on_day (mk_datetime 2026 11 4 10 0 0 0) (mk_time 8 0) 60 [] =
     scan_business_hours (mk_datetime 2026 11 4 9 0 0 0) (mk_datetime 2026 11 4 17 0 0 0) 60 [] \<and>
   find_available_slot_on_day (mk_datetime 2026 11 4 10 0 0 0) (mk_time 8 0) 60 [] =
     Some \<lparr>sl_start = mk_datetime 2026 11 4 9 0 0 0, sl_end = mk_datetime 2026 11 4 10 0 0 0\<rparr>"
proof -
  have v: "valid_time (mk_time 8 0)" by (simp add: valid_time_def mk_time_def)
  have d: "date_of (mk_datetime 2026 11 4 10 0 0 0) = ymd2ord 2026 11 4" by code_simp
  have r: "find_available_slot_on_day (mk_datetime 2026 11 4 10 0 0 0) (mk_time 8 0) 60 [] =
     Some \<lparr>sl_start = mk_datetime 2026 11 4 9 0 0 0, sl_end = mk_datetime 2026 11 4 10 0 0 0\<rparr>"
    by code_simp
  have c: "combine (ymd2ord 2026 11 4) (mk_time 9 0) = mk_datetime 2026 11 4 9 0 0 0"
    "combine (ymd2ord 2026 11 4) (mk_time 17 0) = mk_datetime 2026 11 4 17 0 0 0"
    by (simp_all add: mk_datetime_def mk_time_def)
  from day_search_scan_start [OF v, of "mk_datetime 2026 11 4 10 0 0 0" 60 "[]"] v r
  show ?thesis unfolding d c by (simp add: time_us_mk_time)
qed

text \<open>
  C8. The orchestrator can return the same slot twice. On 2026-11-04 at 10:00, with the
  whole working day of 2026-11-04 busy, a weekly series over one month, 09:00 preferred,
  60 minutes: the candidate 2026-11-04 has no free slot and the Fallback Search gives it
  09:00 on 2026-11-11, which the next candidate, 2026-11-11, is given again.
\<close>

theorem fallback_slot_repeats_neighbour_slot:
  "find_optimal_slots (mk_datetime 2026 11 4 10 0 0 0)
     [\<lparr>summary = ''Offsite'', ev_start = mk_datetime 2026 11 4 9 0 0 0,
       ev_end = mk_datetime 2026 11 4 17 0 0 0\<rparr>]
     (mk_time 9 0) 60 ''Weekly'' 1 =
   [\<lparr>sl_start = mk_datetime 2026 11 11 9 0 0 0, sl_end = mk_datetime 2026 11 11 10 0 0 0\<rparr>,
    \<lparr>sl_start = mk_datetime 2026 11 11 9 0 0 0, sl_end = mk_datetime 2026 11 11 10 0 0 0\<rparr>,
    \<lparr>sl_start = mk_datetime 2026 11 18 9 0 0 0, sl_end = mk_datetime 2026 11 18 10 0 0 0\<rparr>,
    \<lparr>sl_start = mk_datetime 2026 11 25 9 0 0 0, sl_end = mk_datetime 2026 11 25 10 0 0 0\<rparr>,
    \<lparr>sl_start = mk_datetime 2026 12 2 9 0 0 0, sl_end = mk_datetime 2026 12 2 10 0 0 0\<rparr>]"
  by code_simp

text \<open>
  C2. The Recurrence Generator has no error for an unknown pattern: the last branch of its
  dispatch takes every string other than the three it names, so a pattern outside the
  supported set gets the weekly candidate dates, and the orchestrator the weekly result.
  The call with the pattern \<open>''Daily''\<close> below returns five dates.
\<close>

theorem unknown_pattern_is_weekly:
  assumes "recurrence \<notin> {''First Thursday of each month'', ''Last Friday of each month'',
                           ''Every two weeks'', ''Weekly''}"
  shows "generate_candidate_dates start_date end_date recurrence =
           rrule_weekly 1 start_date end_date \<and>
         generate_candidate_dates start_date end_date recurrence =
           generate_candidate_dates start_date end_date ''Weekly'' \<and>
         find_optimal_slots now existing_events preferred_time duration recurrence months_ahead =
           find_optimal_slots now existing_events preferred_time duration ''Weekly'' months_ahead"
proof -
  from assms have g: "generate_candidate_dates s e recurrence = rrule_weekly 1 s e" for s e
    by (simp add: generate_candidate_dates_def)
  have w: "generate_candidate_dates s e ''Weekly'' = rrule_weekly 1 s e" for s e
    by (simp add: generate_candidate_dates_def)
  show ?thesis
    by (simp add: g w find_optimal_slots_def)
qed

theorem unknown_pattern_is_weekly_witness:
  "generate_candidate_dates (mk_datetime 2026 11 4 10 0 0 0) (mk_datetime 2026 12 4 10 0 0 0)
     ''Daily'' =
   generate_candidate_dates (mk_datetime 2026 11 4 10 0 0 0) (mk_datetime 2026 12 4 10 0 0 0)
     ''Weekly''"
proof -
  have "''Daily'' \<notin> {''First Thursday of each month'', ''Last Friday of each month'',
                       ''Every two weeks'', ''Weekly''}"
    by simp
  from unknown_pattern_is_weekly [OF this] show ?thesis by blast
qed

theorem unknown_pattern_is_accepted_counterexample:
  "generate_candidate_dates (mk_datetime 2026 11 4 10 0 0 0) (mk_datetime 2026 12 4 10 0 0 0)
     ''Daily'' =
   [mk_datetime 2026 11 4 10 0 0 0, mk_datetime 2026 11 11 10 0 0 0,
    mk_datetime 2026 11 18 10 0 0 0, mk_datetime 2026 11 25 10 0 0 0,
    mk_datetime 2026 12 2 10 0 0 0]"
  by code_simp
















lemma first_thursday_two_dates:
  "generate_candidate_dates (mk_datetime 2026 10 2 10 0 0 0)
     (add_relativedelta_months (mk_datetime 2026 10 2 10 0 0 0) 3)
     ''First Thursday of each month'' =
   [mk_datetime 2026 11 5 10 0 0 0, mk_datetime 2026 12 3 10 0 0 0]"
  by code_simp

end
